theory Spec2Isabelle
  imports Main "HOL-Library.Word"
begin

unbundle bit_operations_syntax

section \<open>JavaScript strings and buffers\<close>

text \<open>
  A JavaScript string is modelled as a \<open>string\<close>: each \<open>char\<close> stands for one code unit
  below 256. A \<open>Buffer\<close>, \<open>Uint8Array\<close> or \<open>ArrayBuffer\<close> is a list of bytes.
\<close>

type_synonym byte = "8 word"
type_synonym bytes = "byte list"

abbreviation LF :: char where "LF \<equiv> CHR 0x0A"
abbreviation DQUOTE :: char where "DQUOTE \<equiv> CHR 0x22"

text \<open>The white space and line terminators that \<open>String.prototype.trim\<close> strips,
  among the code units below 256: TAB, LF, VT, FF, CR, SP and NBSP.\<close>

definition isWhiteSpace :: "char \<Rightarrow> bool" where
  "isWhiteSpace c \<longleftrightarrow>
     c \<in> set [CHR 0x09, CHR 0x0A, CHR 0x0B, CHR 0x0C, CHR 0x0D, CHR 0x20, CHR 0xA0]"

definition trim :: "string \<Rightarrow> string" where
  "trim s = rev (dropWhile isWhiteSpace (rev (dropWhile isWhiteSpace s)))"

definition startsWith :: "string \<Rightarrow> string \<Rightarrow> bool" where
  "startsWith s p \<longleftrightarrow> take (length p) s = p"

definition endsWith :: "string \<Rightarrow> string \<Rightarrow> bool" where
  "endsWith s p \<longleftrightarrow> length p \<le> length s \<and> drop (length s - length p) s = p"

text \<open>\<open>s.split(c)\<close> for a one-character separator: the pieces between the separators,
  so the empty string splits into one empty piece.\<close>

fun split :: "char \<Rightarrow> string \<Rightarrow> string list" where
  "split c [] = [[]]"
| "split c (x # xs) =
     (if x = c then [] # split c xs
      else (case split c xs of [] \<Rightarrow> [[x]] | w # ws \<Rightarrow> (x # w) # ws))"

text \<open>\<open>a.join(sep)\<close>.\<close>

fun join :: "string \<Rightarrow> string list \<Rightarrow> string" where
  "join sep [] = []"
| "join sep [x] = x"
| "join sep (x # y # zs) = x @ sep @ join sep (y # zs)"

text \<open>\<open>a.pop()\<close> of a freshly split array: its last element, \<open>undefined\<close> when empty.\<close>

definition pop :: "'a list \<Rightarrow> 'a option" where
  "pop xs = (case rev xs of [] \<Rightarrow> None | x # _ \<Rightarrow> Some x)"

text \<open>Decimal rendering of a non-negative integer inside a template literal.\<close>

definition digit :: "nat \<Rightarrow> char" where
  "digit k = ''0123456789'' ! (k mod 10)"

fun digits :: "nat \<Rightarrow> string" where
  "digits n = (if n < 10 then [digit n] else digits (n div 10) @ [digit n])"

declare digits.simps [simp del]

subsection \<open>Base64\<close>

definition b64_alphabet :: string where
  "b64_alphabet = ''ABCDEFGHIJKLMNOPQRSTUVWXYZabcdefghijklmnopqrstuvwxyz0123456789+/''"

definition b64_char :: "nat \<Rightarrow> char" where
  "b64_char n = b64_alphabet ! (n mod 64)"

text \<open>\<open>buf.toString('base64')\<close> of Node: the standard alphabet, padded with \<open>=\<close>.\<close>

fun toBase64 :: "bytes \<Rightarrow> string" where
  "toBase64 [] = []"
| "toBase64 [a] =
     (let n = unat a * 16
      in [b64_char (n div 64), b64_char n, CHR ''='', CHR ''=''])"
| "toBase64 [a, b] =
     (let n = (unat a * 256 + unat b) * 4
      in [b64_char (n div 4096), b64_char (n div 64), b64_char n, CHR ''=''])"
| "toBase64 (a # b # c # rest) =
     (let n = unat a * 65536 + unat b * 256 + unat c
      in [b64_char (n div 262144), b64_char (n div 4096), b64_char (n div 64), b64_char n]
         @ toBase64 rest)"

section \<open>The manifest writer (server/encryption.js)\<close>

text \<open>One entry of the list that \<open>encryptHLSSegments\<close> returns.\<close>

record encrypted_segment =
  original :: string
  encrypted :: string
  nonce :: string
  plain_size :: nat
  encryptedSize :: nat

text \<open>The text that one round of the \<open>forEach\<close> appends to the playlist. The
  duration is a whole number of seconds: the one caller leaves it at its default, 10.\<close>

definition segment_entry :: "nat \<Rightarrow> encrypted_segment \<Rightarrow> string" where
  "segment_entry segmentDuration segment =
     ''#EXTINF:'' @ digits segmentDuration @ ''.0,'' @ [LF]
     @ ''#EXT-X-SEGMENT-NONCE:'' @ nonce segment @ [LF]
     @ encrypted segment @ [LF]"

definition playlist_header :: "bytes \<Rightarrow> nat \<Rightarrow> string" where
  "playlist_header masterKey segmentDuration =
     ''#EXTM3U'' @ [LF]
     @ ''#EXT-X-VERSION:3'' @ [LF]
     @ ''#EXT-X-TARGETDURATION:'' @ digits segmentDuration @ [LF]
     @ ''#EXT-X-MEDIA-SEQUENCE:0'' @ [LF]
     @ ''#EXT-X-PLAYLIST-TYPE:VOD'' @ [LF]
     @ [LF]
     @ ''#EXT-X-CUSTOM-KEY:METHOD=CHACHA20-POLY1305,URI='' @ [DQUOTE]
     @ ''data:text/plain;base64,'' @ toBase64 masterKey @ [DQUOTE] @ [LF]
     @ [LF]"

definition generateCustomM3U8 :: "encrypted_segment list \<Rightarrow> bytes \<Rightarrow> nat \<Rightarrow> string" where
  "generateCustomM3U8 encryptedSegments masterKey segmentDuration =
     (let playlist = playlist_header masterKey segmentDuration;
          playlist = foldl (\<lambda>playlist segment. playlist @ segment_entry segmentDuration segment)
                       playlist encryptedSegments
      in playlist @ ''#EXT-X-ENDLIST'')"

section \<open>The manifest reader of the loader\<close>

text \<open>\<open>line.split(':')[1]\<close>. The loop reads it only from a line that starts with the
  directive name, which ends in a colon, so the second piece exists there.\<close>

definition directive_payload :: "string \<Rightarrow> string" where
  "directive_payload line =
     (case split (CHR '':'') line of _ # payload # _ \<Rightarrow> payload | _ \<Rightarrow> [])"

text \<open>The inner loop over \<open>j\<close>: the first later line that is neither a comment nor blank,
  trimmed.\<close>

fun next_segment_line :: "string list \<Rightarrow> string option" where
  "next_segment_line [] = None"
| "next_segment_line (l # ls) =
     (if \<not> startsWith l ''#'' \<and> trim l \<noteq> [] then Some (trim l) else next_segment_line ls)"

text \<open>The outer loop over \<open>i\<close>, on the lines from \<open>i\<close> onwards.\<close>

fun nonce_loop :: "string list \<Rightarrow> (string \<rightharpoonup> string) \<Rightarrow> (string \<rightharpoonup> string)" where
  "nonce_loop [] nonces = nonces"
| "nonce_loop (line # rest) nonces =
     (if startsWith line ''#EXT-X-SEGMENT-NONCE:''
      then (case next_segment_line rest of
              Some key \<Rightarrow> nonce_loop rest (nonces(key \<mapsto> directive_payload line))
            | None \<Rightarrow> nonce_loop rest nonces)
      else nonce_loop rest nonces)"

definition parseSegmentNonces :: "string \<Rightarrow> (string \<rightharpoonup> string)" where
  "parseSegmentNonces m3u8Content = nonce_loop (split LF m3u8Content) Map.empty"

text \<open>\<open>window.location\<close>, as far as the loader reads it.\<close>

record location =
  protocol :: string
  host :: string

definition serverUrl :: "location \<Rightarrow> string \<Rightarrow> string" where
  "serverUrl loc line = protocol loc @ ''//'' @ host loc @ ''/output/my-encrypted-video/'' @ line"

text \<open>The optional \<open>baseUrl\<close> is \<open>None\<close> when missing; a missing and an empty one are
  both falsy.\<close>

definition blob_base :: "string option \<Rightarrow> bool" where
  "blob_base baseUrl = (case baseUrl of None \<Rightarrow> False | Some u \<Rightarrow> u \<noteq> [] \<and> startsWith u ''blob:'')"

fun clean_loop :: "location \<Rightarrow> string option \<Rightarrow> string list \<Rightarrow> string list \<Rightarrow> string list" where
  "clean_loop loc baseUrl [] cleanedLines = cleanedLines"
| "clean_loop loc baseUrl (raw # rest) cleanedLines =
     (let line = trim raw
      in if line = [] then clean_loop loc baseUrl rest cleanedLines
         else if startsWith line ''#EXT-X-CUSTOM-KEY:'' \<or> startsWith line ''#EXT-X-SEGMENT-NONCE:''
         then clean_loop loc baseUrl rest cleanedLines
         else if \<not> startsWith line ''#'' \<and> endsWith line ''.enc'' \<and> blob_base baseUrl
                 \<and> \<not> startsWith line ''http'' \<and> \<not> startsWith line ''/''
         then clean_loop loc baseUrl rest (cleanedLines @ [serverUrl loc line])
         else clean_loop loc baseUrl rest (cleanedLines @ [line]))"

definition cleanM3U8ForHls :: "location \<Rightarrow> string \<Rightarrow> string option \<Rightarrow> string" where
  "cleanM3U8ForHls loc m3u8Content baseUrl =
     join [LF] (clean_loop loc baseUrl (split LF m3u8Content) [])"

section \<open>ChaCha20-Poly1305\<close>

text \<open>
  Both sides call the IETF ChaCha20-Poly1305 construction of libsodium (through
  \<open>sodium-native\<close> on the server and \<open>libsodium-wrappers\<close> in the loader). The library
  is not part of the repository; the construction is written out here after RFC 8439.
  The block counter is a 32-bit word and the numbers of the authenticator are integers.
\<close>

type_synonym u32 = "32 word"

fun le_words :: "bytes \<Rightarrow> u32 list" where
  "le_words (a # b # c # d # rest) =
     (ucast a + push_bit 8 (ucast b) + push_bit 16 (ucast c) + push_bit 24 (ucast d)) # le_words rest"
| "le_words _ = []"

definition word_bytes :: "u32 \<Rightarrow> bytes" where
  "word_bytes w = [ucast w, ucast (drop_bit 8 w), ucast (drop_bit 16 w), ucast (drop_bit 24 w)]"

definition quarterround :: "nat \<Rightarrow> nat \<Rightarrow> nat \<Rightarrow> nat \<Rightarrow> u32 list \<Rightarrow> u32 list" where
  "quarterround a b c d x =
     (let x = x[a := x ! a + x ! b]; x = x[d := word_rotl 16 (x ! d XOR x ! a)];
          x = x[c := x ! c + x ! d]; x = x[b := word_rotl 12 (x ! b XOR x ! c)];
          x = x[a := x ! a + x ! b]; x = x[d := word_rotl 8 (x ! d XOR x ! a)];
          x = x[c := x ! c + x ! d]; x = x[b := word_rotl 7 (x ! b XOR x ! c)]
      in x)"

definition inner_block :: "u32 list \<Rightarrow> u32 list" where
  "inner_block x =
     (quarterround 3 4 9 14 \<circ> quarterround 2 7 8 13 \<circ> quarterround 1 6 11 12 \<circ> quarterround 0 5 10 15
      \<circ> quarterround 3 7 11 15 \<circ> quarterround 2 6 10 14 \<circ> quarterround 1 5 9 13 \<circ> quarterround 0 4 8 12) x"

definition chacha20_block :: "bytes \<Rightarrow> u32 \<Rightarrow> bytes \<Rightarrow> bytes" where
  "chacha20_block key counter npub =
     (let state = [0x61707865, 0x3320646e, 0x79622d32, 0x6b206574] @ le_words key @ [counter] @ le_words npub;
          working = (inner_block ^^ 10) state
      in concat (map word_bytes (map2 (+) state working)))"

definition chacha20_keystream :: "bytes \<Rightarrow> u32 \<Rightarrow> bytes \<Rightarrow> nat \<Rightarrow> bytes" where
  "chacha20_keystream key counter npub n =
     concat (map (\<lambda>j. chacha20_block key (counter + of_nat j) npub) [0 ..< (n + 63) div 64])"

definition chacha20_encrypt :: "bytes \<Rightarrow> u32 \<Rightarrow> bytes \<Rightarrow> bytes \<Rightarrow> bytes" where
  "chacha20_encrypt key counter npub msg =
     map2 (XOR) msg (chacha20_keystream key counter npub (length msg))"

definition le_num :: "bytes \<Rightarrow> int" where
  "le_num bs = foldr (\<lambda>b n. uint b + 256 * n) bs 0"

definition num_to_le :: "nat \<Rightarrow> int \<Rightarrow> bytes" where
  "num_to_le len n = map (\<lambda>i. of_int (n div 256 ^ i)) [0 ..< len]"

definition poly1305_p :: int where
  "poly1305_p = 2 ^ 130 - 5"

function poly1305_blocks :: "int \<Rightarrow> int \<Rightarrow> bytes \<Rightarrow> int" where
  "poly1305_blocks r acc msg =
     (if msg = [] then acc
      else poly1305_blocks r ((acc + le_num (take 16 msg @ [1])) * r mod poly1305_p) (drop 16 msg))"
  by pat_completeness auto
termination
  by (relation "measure (\<lambda>(r, acc, msg). length msg)") auto

declare poly1305_blocks.simps [simp del]

definition poly1305_mac :: "bytes \<Rightarrow> bytes \<Rightarrow> bytes" where
  "poly1305_mac msg key =
     (let r = and (le_num (take 16 key)) 0x0ffffffc0ffffffc0ffffffc0fffffff;
          s = le_num (take 16 (drop 16 key))
      in num_to_le 16 (poly1305_blocks r 0 msg + s))"

definition poly1305_key_gen :: "bytes \<Rightarrow> bytes \<Rightarrow> bytes" where
  "poly1305_key_gen key npub = take 32 (chacha20_block key 0 npub)"

definition pad16 :: "bytes \<Rightarrow> bytes" where
  "pad16 x = replicate ((16 - length x mod 16) mod 16) 0"

definition aead_tag :: "bytes \<Rightarrow> bytes \<Rightarrow> bytes \<Rightarrow> bytes \<Rightarrow> bytes" where
  "aead_tag key npub aad ciphertext =
     poly1305_mac (aad @ pad16 aad @ ciphertext @ pad16 ciphertext
                   @ num_to_le 8 (int (length aad)) @ num_to_le 8 (int (length ciphertext)))
       (poly1305_key_gen key npub)"

definition aead_encrypt :: "bytes \<Rightarrow> bytes \<Rightarrow> bytes \<Rightarrow> bytes \<Rightarrow> bytes" where
  "aead_encrypt key npub aad plaintext =
     (let ciphertext = chacha20_encrypt key 1 npub plaintext
      in ciphertext @ aead_tag key npub aad ciphertext)"

text \<open>Decryption releases the plaintext only when the received tag equals the computed one.\<close>

definition aead_decrypt :: "bytes \<Rightarrow> bytes \<Rightarrow> bytes \<Rightarrow> bytes \<Rightarrow> bytes option" where
  "aead_decrypt key npub aad c =
     (if length c < 16 then None
      else let ciphertext = take (length c - 16) c; tag = drop (length c - 16) c
           in if aead_tag key npub aad ciphertext = tag
              then Some (chacha20_encrypt key 1 npub ciphertext) else None)"

section \<open>Exceptions and the library entry points\<close>

text \<open>A thrown value: its constructor and its \<open>message\<close>. Every one of them is an
  \<open>instanceof Error\<close>.\<close>

datatype js_error = Error string | TypeError string | RangeError string | DOMException string

fun message :: "js_error \<Rightarrow> string" where
  "message (Error m) = m"
| "message (TypeError m) = m"
| "message (RangeError m) = m"
| "message (DOMException m) = m"

subsection \<open>\<open>sodium-native\<close>, used by the server\<close>

text \<open>
  The binding checks the sizes of the buffers it is given before it calls the library and
  throws when the library reports a tag that does not verify. The output buffer \<open>c\<close>
  (or \<open>m\<close>) enters by its length; the result is its content after the call. A \<open>null\<close>
  \<open>ad\<close> is \<open>None\<close>.
\<close>

definition crypto_aead_chacha20poly1305_ietf_encrypt ::
    "nat \<Rightarrow> bytes \<Rightarrow> bytes option \<Rightarrow> bytes \<Rightarrow> bytes \<Rightarrow> js_error + bytes" where
  "crypto_aead_chacha20poly1305_ietf_encrypt c_length m ad npub k =
     (if c_length \<noteq> length m + 16
      then Inl (Error ''c must be 'm.byteLength + crypto_aead_chacha20poly1305_ietf_ABYTES' bytes'')
      else if length npub \<noteq> 12
      then Inl (Error ''npub must be 'crypto_aead_chacha20poly1305_ietf_NPUBBYTES' bytes'')
      else if length k \<noteq> 32
      then Inl (Error ''k must be 'crypto_aead_chacha20poly1305_ietf_KEYBYTES' bytes'')
      else Inr (aead_encrypt k npub (case ad of None \<Rightarrow> [] | Some a \<Rightarrow> a) m))"

definition crypto_aead_chacha20poly1305_ietf_decrypt ::
    "nat \<Rightarrow> bytes \<Rightarrow> bytes option \<Rightarrow> bytes \<Rightarrow> bytes \<Rightarrow> js_error + bytes" where
  "crypto_aead_chacha20poly1305_ietf_decrypt m_length c ad npub k =
     (if m_length + 16 \<noteq> length c
      then Inl (Error ''m must be 'c.byteLength - crypto_aead_chacha20poly1305_ietf_ABYTES' bytes'')
      else if length npub \<noteq> 12
      then Inl (Error ''npub must be 'crypto_aead_chacha20poly1305_ietf_NPUBBYTES' bytes'')
      else if length k \<noteq> 32
      then Inl (Error ''k must be 'crypto_aead_chacha20poly1305_ietf_KEYBYTES' bytes'')
      else (case aead_decrypt k npub (case ad of None \<Rightarrow> [] | Some a \<Rightarrow> a) c of
              None \<Rightarrow> Inl (Error ''could not verify data'')
            | Some m \<Rightarrow> Inr m))"

subsection \<open>\<open>libsodium-wrappers\<close> and \<open>atob\<close>, used by the loader\<close>

definition b64_urlsafe_alphabet :: string where
  "b64_urlsafe_alphabet = ''ABCDEFGHIJKLMNOPQRSTUVWXYZabcdefghijklmnopqrstuvwxyz0123456789-_''"

fun index_of :: "'a list \<Rightarrow> 'a \<Rightarrow> nat option" where
  "index_of [] c = None"
| "index_of (x # xs) c = (if x = c then Some 0 else map_option Suc (index_of xs c))"

text \<open>The decoding loop of \<open>sodium_base642bin\<close>: it stops at the first character outside
  the alphabet and returns what is left of the input with the accumulator.\<close>

fun base642bin_loop :: "string \<Rightarrow> string \<Rightarrow> u32 \<Rightarrow> nat \<Rightarrow> bytes \<Rightarrow> string \<times> u32 \<times> nat \<times> bytes" where
  "base642bin_loop alphabet [] acc acc_len bin = ([], acc, acc_len, bin)"
| "base642bin_loop alphabet (c # b64) acc acc_len bin =
     (case index_of alphabet c of
        None \<Rightarrow> (c # b64, acc, acc_len, bin)
      | Some d \<Rightarrow>
          (let acc = push_bit 6 acc + of_nat d; acc_len = acc_len + 6
           in if acc_len \<ge> 8
              then base642bin_loop alphabet b64 acc (acc_len - 8) (bin @ [ucast (drop_bit (acc_len - 8) acc)])
              else base642bin_loop alphabet b64 acc acc_len bin))"

text \<open>\<open>sodium.from_base64(input)\<close> with its default variant, URL-safe without padding:
  it throws unless the whole input decodes and the bits left over are zero.\<close>

definition from_base64 :: "string \<Rightarrow> js_error + bytes" where
  "from_base64 input =
     (case base642bin_loop b64_urlsafe_alphabet input 0 0 [] of
        (rest, acc, acc_len, bin) \<Rightarrow>
          if acc_len > 4 \<or> acc AND (push_bit acc_len 1 - 1) \<noteq> 0 then Inl (Error ''invalid input'')
          else if rest \<noteq> [] then Inl (Error ''incomplete input'')
          else Inr bin)"

text \<open>The bytes of a run of 6-bit values, as the forgiving decoder of \<open>atob\<close> emits them:
  three per full group, and the whole bytes of a last group of two or three values.\<close>

fun sextets_to_bytes :: "nat list \<Rightarrow> bytes" where
  "sextets_to_bytes (a # b # c # d # rest) =
     (let n = push_bit 18 (of_nat a) + push_bit 12 (of_nat b) + push_bit 6 (of_nat c) + of_nat d :: u32
      in [ucast (drop_bit 16 n), ucast (drop_bit 8 n), ucast n] @ sextets_to_bytes rest)"
| "sextets_to_bytes [a, b, c] =
     (let n = push_bit 12 (of_nat a) + push_bit 6 (of_nat b) + of_nat c :: u32
      in [ucast (drop_bit 10 n), ucast (drop_bit 2 n)])"
| "sextets_to_bytes [a, b] =
     (let n = push_bit 6 (of_nat a) + of_nat b :: u32 in [ucast (drop_bit 4 n)])"
| "sextets_to_bytes _ = []"

definition atob_failure :: js_error where
  "atob_failure = DOMException ''The string to be decoded is not correctly encoded.''"

text \<open>\<open>atob(data)\<close>: ASCII white space is dropped, one or two closing \<open>=\<close> of a padded
  input are dropped, and the rest must be of the standard alphabet and not one character
  over a multiple of four. The result is a binary string, every code unit of which is
  below 256; it is given here by its code units, so that the loop which copies
  \<open>binaryString.charCodeAt(i)\<close> into a \<open>Uint8Array\<close> returns the same list.\<close>

definition atob :: "string \<Rightarrow> js_error + bytes" where
  "atob input =
     (let data = filter (\<lambda>c. c \<notin> set [CHR 0x09, CHR 0x0A, CHR 0x0C, CHR 0x0D, CHR 0x20]) input;
          data = (if length data mod 4 = 0
                  then (if endsWith data ''=='' then take (length data - 2) data
                        else if endsWith data ''='' then take (length data - 1) data
                        else data)
                  else data)
      in if length data mod 4 = 1 then Inl atob_failure
         else (case those (map (index_of b64_alphabet) data) of
                 None \<Rightarrow> Inl atob_failure
               | Some sextets \<Rightarrow> Inr (sextets_to_bytes sextets)))"

definition charCodes :: "bytes \<Rightarrow> bytes" where
  "charCodes binaryString = map (\<lambda>code. code) binaryString"

text \<open>\<open>sodium.crypto_aead_chacha20poly1305_ietf_decrypt(null, ciphertext, null,
  public_nonce, key)\<close> of the wrapper.\<close>

definition wrappers_decrypt :: "bytes \<Rightarrow> bytes option \<Rightarrow> bytes \<Rightarrow> bytes \<Rightarrow> js_error + bytes" where
  "wrappers_decrypt ciphertext additional_data public_nonce key =
     (if length ciphertext < 16 then Inl (TypeError ''ciphertext is too short'')
      else if length public_nonce \<noteq> 12 then Inl (TypeError ''invalid public_nonce length'')
      else if length key \<noteq> 32 then Inl (TypeError ''invalid key length'')
      else (case aead_decrypt key public_nonce
                   (case additional_data of None \<Rightarrow> [] | Some a \<Rightarrow> a) ciphertext of
              None \<Rightarrow> Inl (Error ''ciphertext cannot be decrypted using that key'')
            | Some m \<Rightarrow> Inr m))"

section \<open>The segment cipher of the server (server/encryption.js)\<close>

text \<open>\<open>Buffer.alloc(size)\<close> throws a \<open>RangeError\<close> for a negative size; the buffer it
  returns enters the binding by its length.\<close>

definition encryptSegment :: "bytes \<Rightarrow> bytes \<Rightarrow> bytes \<Rightarrow> js_error + bytes" where
  "encryptSegment plaintext key npub =
     crypto_aead_chacha20poly1305_ietf_encrypt (length plaintext + 16) plaintext None npub key"

definition decryptSegment :: "bytes \<Rightarrow> bytes \<Rightarrow> bytes \<Rightarrow> js_error + bytes" where
  "decryptSegment ciphertext key npub =
     (if length ciphertext < 16
      then Inl (RangeError (''The value of '' @ [DQUOTE] @ ''size'' @ [DQUOTE] @ '' is out of range.''))
      else crypto_aead_chacha20poly1305_ietf_decrypt (length ciphertext - 16) ciphertext None npub key)"

section \<open>The loader\<close>

subsection \<open>The key directive\<close>

text \<open>
  The regular expression
  \<^verbatim>\<open>/#EXT-X-CUSTOM-KEY:.*URI="data:text\/plain;base64,([^"]+)"/\<close>,
  matched the way a backtracking matcher does. \<open>uri_capture\<close> matches the part from
  \<open>URI=\<close> on at the head of its argument and returns the group: the characters up to the
  next quote, which must be at least one and must be followed by that quote.
\<close>

definition uri_capture :: "string \<Rightarrow> string option" where
  "uri_capture s =
     (let lit = ''URI='' @ [DQUOTE] @ ''data:text/plain;base64,''
      in if startsWith s lit
         then (let rest = drop (length lit) s; capture = takeWhile (\<lambda>c. c \<noteq> DQUOTE) rest
               in if capture \<noteq> [] \<and> length capture < length rest then Some capture else None)
         else None)"

text \<open>The greedy \<open>.*\<close>: it takes \<open>k\<close> characters first and gives them back one by one.\<close>

fun dot_star :: "string \<Rightarrow> nat \<Rightarrow> string option" where
  "dot_star s 0 = uri_capture s"
| "dot_star s (Suc k) =
     (case uri_capture (drop (Suc k) s) of Some capture \<Rightarrow> Some capture | None \<Rightarrow> dot_star s k)"

text \<open>The leftmost position where the whole expression matches. A dot matches anything
  but a line terminator.\<close>

fun key_match :: "string \<Rightarrow> string option" where
  "key_match [] = None"
| "key_match (c # cs) =
     (if startsWith (c # cs) ''#EXT-X-CUSTOM-KEY:''
      then (let rest = drop (length ''#EXT-X-CUSTOM-KEY:'') (c # cs);
                reach = length (takeWhile (\<lambda>c. c \<noteq> LF \<and> c \<noteq> CHR 0x0D) rest)
            in case dot_star rest reach of Some capture \<Rightarrow> Some capture | None \<Rightarrow> key_match cs)
      else key_match cs)"

text \<open>\<open>parseEncryptionKey\<close>. The flag says whether \<open>encryptionState.sodium\<close> is set; when
  it is not, control leaves the \<open>if (keyMatch)\<close> block and reaches the last \<open>throw\<close>.\<close>

definition parseEncryptionKey :: "bool \<Rightarrow> string \<Rightarrow> js_error + bytes" where
  "parseEncryptionKey sodium_ready m3u8Content =
     (case key_match m3u8Content of
        Some capture \<Rightarrow>
          (let keyString = trim capture
           in if sodium_ready
              then (case from_base64 keyString of
                      Inr key \<Rightarrow> Inr key
                    | Inl _ \<Rightarrow>
                        (case atob keyString of
                           Inr binaryString \<Rightarrow> Inr (charCodes binaryString)
                         | Inl error \<Rightarrow> Inl (Error ''Invalid base64 key format'')))
              else Inl (Error ''Encryption key not found in playlist''))
      | None \<Rightarrow> Inl (Error ''Encryption key not found in playlist''))"

subsection \<open>Decrypting a segment\<close>

text \<open>The inner \<open>try\<close> of \<open>decryptSegment\<close>: the nonce decoded by the library, or by
  \<open>atob\<close> when the library throws.\<close>

definition decode_nonce :: "string \<Rightarrow> js_error + bytes" where
  "decode_nonce nonce_text =
     (case from_base64 nonce_text of
        Inr nonceBuffer \<Rightarrow> Inr nonceBuffer
      | Inl _ \<Rightarrow> (case atob nonce_text of
                   Inr binaryString \<Rightarrow> Inr (charCodes binaryString)
                 | Inl error \<Rightarrow> Inl error))"

text \<open>\<open>decryptSegment\<close> of the loader. Whatever is thrown inside the outer \<open>try\<close> is
  thrown again as an \<open>Error\<close> whose message starts with \<open>Decryption failed: \<close>.\<close>

definition loader_decryptSegment :: "bool \<Rightarrow> bytes \<Rightarrow> bytes \<Rightarrow> string \<Rightarrow> js_error + bytes" where
  "loader_decryptSegment sodium_ready encryptedData key nonce_text =
     (if \<not> sodium_ready then Inl (Error ''Sodium not initialized'')
      else
        (case
           (case decode_nonce nonce_text of
              Inl error \<Rightarrow> Inl error
            | Inr nonceBuffer \<Rightarrow>
                if length key \<noteq> 32
                then Inl (Error (''Invalid key size: expected 32 bytes, got '' @ digits (length key)))
                else if length nonceBuffer \<noteq> 12
                then Inl (Error (''Invalid nonce size: expected 12 bytes, got ''
                                 @ digits (length nonceBuffer)))
                else wrappers_decrypt encryptedData None nonceBuffer key)
         of Inl error \<Rightarrow> Inl (Error (''Decryption failed: '' @ message error))
          | Inr decrypted \<Rightarrow> Inr decrypted))"

subsection \<open>\<open>load\<close>\<close>

text \<open>The state shared by all loader instances.\<close>

record EncryptionState =
  decryptionKey :: "bytes option"
  sodium :: bool
  segmentNonces :: "string \<rightharpoonup> string"

definition initialState :: EncryptionState where
  "initialState = \<lparr>decryptionKey = None, sodium = False, segmentNonces = Map.empty\<rparr>"

text \<open>\<open>EncryptionState.initialize\<close>, once \<open>sodium.ready\<close> has resolved.\<close>

definition initialize :: "EncryptionState \<Rightarrow> EncryptionState" where
  "initialize st = st\<lparr>sodium := True\<rparr>"

text \<open>The request as its \<open>onload\<close> handler sees it. The constructor of the response stands
  for \<open>xhr.responseType\<close>: \<open>'text'\<close> or \<open>'arraybuffer'\<close>.\<close>

datatype response = Text string | ArrayBuffer bytes

record XMLHttpRequest =
  status :: nat
  statusText :: string
  response :: response

text \<open>The one callback that a handler invokes: \<open>onSuccess\<close> with the \<open>url\<close> and the
  \<open>data\<close> of its payload and with \<open>stats.loaded\<close> and \<open>stats.total\<close>, or \<open>onError\<close>
  with the \<open>code\<close> and the \<open>text\<close>. The time stamps of the statistics are left out.\<close>

datatype callback =
  onSuccess string response nat nat
| onError nat string

text \<open>The branch for an encrypted segment, up to the call of \<open>onSuccess\<close>.\<close>

definition decrypt_response :: "EncryptionState \<Rightarrow> string \<Rightarrow> bytes \<Rightarrow> js_error + bytes" where
  "decrypt_response st url data =
     (let filename = pop (split (CHR ''/'') url);
          found = (case filename of
                     None \<Rightarrow> None
                   | Some f \<Rightarrow> if f = [] then None else segmentNonces st f)
      in case (case found of None \<Rightarrow> None | Some n \<Rightarrow> if n = [] then None else Some n) of
           None \<Rightarrow>
             Inl (Error (''Nonce not found for segment: ''
                         @ (case filename of None \<Rightarrow> ''undefined'' | Some f \<Rightarrow> f)))
         | Some nonce_text \<Rightarrow>
             (case decryptionKey st of
                None \<Rightarrow> Inl (Error ''Decryption key not available'')
              | Some key \<Rightarrow> loader_decryptSegment (sodium st) data key nonce_text))"

text \<open>\<open>xhr.onload\<close>: the callback invoked and the shared state afterwards.\<close>

definition onload ::
    "location \<Rightarrow> EncryptionState \<Rightarrow> string \<Rightarrow> XMLHttpRequest \<Rightarrow> callback \<times> EncryptionState" where
  "onload loc st url xhr =
     (if status xhr = 200
      then (case response xhr of
              Text textData \<Rightarrow>
                (case parseEncryptionKey (sodium st) textData of
                   Inr key \<Rightarrow>
                     (let st = st\<lparr>decryptionKey := Some key\<rparr>;
                          st = st\<lparr>segmentNonces := parseSegmentNonces textData\<rparr>;
                          cleanedM3U8 = cleanM3U8ForHls loc textData (Some url)
                      in (onSuccess url (Text cleanedM3U8) (length textData) (length textData), st))
                 | Inl keyError \<Rightarrow>
                     (onSuccess url (Text textData) (length textData) (length textData), st))
            | ArrayBuffer data \<Rightarrow>
                if endsWith url ''.enc''
                then (case decrypt_response st url data of
                        Inr decryptedData \<Rightarrow>
                          (onSuccess url (ArrayBuffer decryptedData) (length data) (length data), st)
                      | Inl error \<Rightarrow> (onError (status xhr) (message error), st))
                else (onSuccess url (ArrayBuffer data) (length data) (length data), st))
      else (onError (status xhr) (statusText xhr), st))"

text \<open>\<open>xhr.onerror\<close>.\<close>

definition onerror :: "EncryptionState \<Rightarrow> XMLHttpRequest \<Rightarrow> callback \<times> EncryptionState" where
  "onerror st xhr = (onError (status xhr) ''Network Error'', st)"

section \<open>Notions used in the statements\<close>

text \<open>The lines that the writer emits: those of the header and the three of a segment.\<close>

definition header_lines :: "bytes \<Rightarrow> nat \<Rightarrow> string list" where
  "header_lines masterKey segmentDuration =
     [''#EXTM3U'', ''#EXT-X-VERSION:3'', ''#EXT-X-TARGETDURATION:'' @ digits segmentDuration,
      ''#EXT-X-MEDIA-SEQUENCE:0'', ''#EXT-X-PLAYLIST-TYPE:VOD'', [],
      ''#EXT-X-CUSTOM-KEY:METHOD=CHACHA20-POLY1305,URI='' @ [DQUOTE]
        @ ''data:text/plain;base64,'' @ toBase64 masterKey @ [DQUOTE],
      []]"

definition seg_lines :: "nat \<Rightarrow> encrypted_segment \<Rightarrow> string list" where
  "seg_lines segmentDuration segment =
     [''#EXTINF:'' @ digits segmentDuration @ ''.0,'',
      ''#EXT-X-SEGMENT-NONCE:'' @ nonce segment,
      encrypted segment]"

text \<open>The table that receives the nonce of each segment under its file name, in order.\<close>

fun table_of :: "(string \<rightharpoonup> string) \<Rightarrow> encrypted_segment list \<Rightarrow> (string \<rightharpoonup> string)" where
  "table_of m [] = m"
| "table_of m (s # segs) = table_of (m(encrypted s \<mapsto> nonce s)) segs"

text \<open>Text made of the characters of base64 only.\<close>

definition base64_text :: "string \<Rightarrow> bool" where
  "base64_text s \<longleftrightarrow> (\<forall>c \<in> set s. c \<in> set b64_alphabet \<or> c = CHR ''='')"

text \<open>A segment reference that the reader takes as it is written: not empty, on one line,
  not a comment, and without white space around it.\<close>

definition bare_reference :: "string \<Rightarrow> bool" where
  "bare_reference e \<longleftrightarrow> e \<noteq> [] \<and> LF \<notin> set e \<and> \<not> startsWith e ''#'' \<and> trim e = e"

text \<open>The final path component of a reference, taken the way \<open>load\<close> takes it from the
  URL of a segment: \<open>url.split('/').pop()\<close>.\<close>

definition basename :: "string \<Rightarrow> string" where
  "basename ref = (case pop (split (CHR ''/'') ref) of None \<Rightarrow> [] | Some f \<Rightarrow> f)"

text \<open>The two tests of the cleaning loop, on a trimmed line.\<close>

definition proprietary :: "string \<Rightarrow> bool" where
  "proprietary line \<longleftrightarrow>
     startsWith line ''#EXT-X-CUSTOM-KEY:'' \<or> startsWith line ''#EXT-X-SEGMENT-NONCE:''"

definition rewritten :: "string option \<Rightarrow> string \<Rightarrow> bool" where
  "rewritten baseUrl line \<longleftrightarrow>
     \<not> startsWith line ''#'' \<and> endsWith line ''.enc'' \<and> blob_base baseUrl
     \<and> \<not> startsWith line ''http'' \<and> \<not> startsWith line ''/''"

text \<open>The errors by which a caller tells wrong key material from a tag that does not
  verify, by their messages.\<close>

definition malformed_key_material :: "js_error \<Rightarrow> bool" where
  "malformed_key_material e \<longleftrightarrow>
     e = Error ''npub must be 'crypto_aead_chacha20poly1305_ietf_NPUBBYTES' bytes''
     \<or> e = Error ''k must be 'crypto_aead_chacha20poly1305_ietf_KEYBYTES' bytes''
     \<or> startsWith (message e) ''Decryption failed: Invalid key size: expected 32 bytes, got ''
     \<or> startsWith (message e) ''Decryption failed: Invalid nonce size: expected 12 bytes, got ''"

definition integrity_failure :: "js_error \<Rightarrow> bool" where
  "integrity_failure e \<longleftrightarrow>
     e = Error ''could not verify data''
     \<or> e = Error ''Decryption failed: ciphertext cannot be decrypted using that key''"

section \<open>Example inputs\<close>

definition example_location :: location where
  "example_location = \<lparr>protocol = ''http:'', host = ''localhost:3000''\<rparr>"

definition example_segments :: "encrypted_segment list" where
  "example_segments =
     [\<lparr>original = ''segment0000.ts'', encrypted = ''segment0000.enc'',
       nonce = ''AAAAAAAAAAAAAAAA'', plain_size = 3, encryptedSize = 19\<rparr>,
      \<lparr>original = ''segment0001.ts'', encrypted = ''segment0001.enc'',
       nonce = ''AQIDBAUGBwgJCgsM'', plain_size = 3, encryptedSize = 19\<rparr>]"

text \<open>A directory entry \<open>#intro.ts\<close> gives a segment whose file name starts with \<open>#\<close>.\<close>

definition hash_segment :: encrypted_segment where
  "hash_segment =
     \<lparr>original = ''#intro.ts'', encrypted = ''#intro.enc'',
      nonce = ''AAAAAAAAAAAAAAAA'', plain_size = 3, encryptedSize = 19\<rparr>"

definition key_line :: "string \<Rightarrow> string" where
  "key_line payload =
     ''#EXT-X-CUSTOM-KEY:METHOD=CHACHA20-POLY1305,URI='' @ [DQUOTE]
     @ ''data:text/plain;base64,'' @ payload @ [DQUOTE]"

text \<open>A manifest that ends after a nonce directive.\<close>

definition truncated_manifest :: string where
  "truncated_manifest =
     ''#EXTM3U'' @ [LF] @ key_line ''AAAAAAAAAAAAAAAAAAAAAAAAAAAAAAAAAAAAAAAAAAA='' @ [LF]
     @ ''#EXTINF:10.0,'' @ [LF] @ ''#EXT-X-SEGMENT-NONCE:AAAAAAAAAAAAAAAA'' @ [LF]"

text \<open>A manifest whose segment reference is an absolute URL.\<close>

definition absolute_manifest :: string where
  "absolute_manifest =
     ''#EXTM3U'' @ [LF] @ key_line ''AAAAAAAAAAAAAAAAAAAAAAAAAAAAAAAAAAAAAAAAAAA='' @ [LF]
     @ ''#EXTINF:10.0,'' @ [LF] @ ''#EXT-X-SEGMENT-NONCE:AAAAAAAAAAAAAAAA'' @ [LF]
     @ ''http://localhost:3000/output/v/segment0000.enc'' @ [LF] @ ''#EXT-X-ENDLIST''"

text \<open>A manifest whose key payload is not base64.\<close>

definition malformed_key_manifest :: string where
  "malformed_key_manifest =
     ''#EXTM3U'' @ [LF] @ key_line ''!!!'' @ [LF]
     @ ''#EXTINF:10.0,'' @ [LF] @ ''#EXT-X-SEGMENT-NONCE:AAAAAAAAAAAAAAAA'' @ [LF]
     @ ''segment0000.enc'' @ [LF] @ ''#EXT-X-ENDLIST''"

definition playlist_url :: string where
  "playlist_url = ''http://localhost:3000/output/v/encrypted-playlist.m3u8''"

definition ok_text :: "string \<Rightarrow> XMLHttpRequest" where
  "ok_text body = \<lparr>status = 200, statusText = ''OK'', response = Text body\<rparr>"

section \<open>Strings\<close>

lemma startsWith_Nil [simp]: "startsWith s []"
  by (simp add: startsWith_def)

lemma startsWith_Nil_Cons [simp]: "\<not> startsWith [] (y # p)"
  by (simp add: startsWith_def)

lemma startsWith_Cons_Cons [simp]: "startsWith (x # s) (y # p) \<longleftrightarrow> x = y \<and> startsWith s p"
  by (auto simp: startsWith_def)

lemma startsWith_append: "startsWith (p @ s) p"
  by (simp add: startsWith_def)

lemma startsWith_hash: "startsWith e (CHR ''#'' # p) \<Longrightarrow> startsWith e ''#''"
  by (cases e) auto

lemma split_not_Nil [simp]: "split c s \<noteq> []"
  by (induction s) (auto split: list.splits)

lemma split_no_sep: "c \<notin> set s \<Longrightarrow> split c s = [s]"
  by (induction s) auto

lemma split_append_sep: "c \<notin> set a \<Longrightarrow> split c (a @ c # b) = a # split c b"
  by (induction a) auto

lemma split_pieces: "w \<in> set (split c s) \<Longrightarrow> c \<notin> set w"
  by (induction s arbitrary: w) (auto split: if_splits list.splits)

lemma join_Cons: "ws \<noteq> [] \<Longrightarrow> join sep (w # ws) = w @ sep @ join sep ws"
  by (cases ws) auto

lemma join_split: "join [c] (split c s) = s"
proof (induction s)
  case Nil
  then show ?case by simp
next
  case (Cons x xs)
  show ?case
  proof (cases "x = c")
    case True
    with Cons show ?thesis by (simp add: join_Cons)
  next
    case False
    obtain w ws where s: "split c xs = w # ws"
      by (cases "split c xs") auto
    have "join [c] ((x # w) # ws) = x # join [c] (w # ws)"
      by (cases ws) auto
    with Cons False s show ?thesis by simp
  qed
qed

lemma split_join:
  "ws \<noteq> [] \<Longrightarrow> \<forall>w \<in> set ws. c \<notin> set w \<Longrightarrow> split c (join [c] ws) = ws"
proof (induction ws)
  case Nil
  then show ?case by simp
next
  case (Cons w ws)
  show ?case
  proof (cases ws)
    case Nil
    with Cons.prems show ?thesis by (simp add: split_no_sep)
  next
    case (Cons v vs)
    with Cons.IH Cons.prems show ?thesis by (simp add: split_append_sep)
  qed
qed

lemma digit_in: "digit k \<in> set ''0123456789''"
  unfolding digit_def by (rule nth_mem) simp

lemma digits_chars: "ch \<in> set (digits n) \<Longrightarrow> ch \<in> set ''0123456789''"
proof (induction n arbitrary: ch rule: digits.induct)
  case (1 n)
  show ?case
  proof (cases "n < 10")
    case True
    then have "digits n = [digit n]" by (subst digits.simps) simp
    with "1.prems" have "ch = digit n" by simp
    then show ?thesis using digit_in[of n] by blast
  next
    case False
    then have "digits n = digits (n div 10) @ [digit n]" by (subst digits.simps) simp
    with "1.prems" have "ch \<in> set (digits (n div 10)) \<or> ch = digit n" by auto
    then show ?thesis using "1.IH"[OF False] digit_in[of n] by blast
  qed
qed

lemma LF_notin_digits [simp]: "LF \<notin> set (digits n)"
  using digits_chars[of LF n] by auto

lemma b64_char_in: "b64_char n \<in> set b64_alphabet"
  unfolding b64_char_def by (rule nth_mem) (simp add: b64_alphabet_def)

lemma toBase64_chars: "ch \<in> set (toBase64 bs) \<Longrightarrow> ch \<in> set b64_alphabet \<or> ch = CHR ''=''"
proof (induction bs arbitrary: ch rule: toBase64.induct)
  case 1
  then show ?case by simp
next
  case (2 a)
  then show ?case using b64_char_in by (auto simp: Let_def)
next
  case (3 a b)
  then show ?case using b64_char_in by (auto simp: Let_def)
next
  case (4 a b c rest)
  then show ?case using b64_char_in by (auto simp: Let_def)
qed

lemma LF_notin_alphabet: "LF \<notin> set b64_alphabet"
  by (simp add: b64_alphabet_def)

lemma colon_notin_alphabet: "CHR '':'' \<notin> set b64_alphabet"
  by (simp add: b64_alphabet_def)

lemma LF_notin_toBase64 [simp]: "LF \<notin> set (toBase64 bs)"
  using toBase64_chars[of LF bs] LF_notin_alphabet by auto

lemma base64_text_no_LF: "base64_text s \<Longrightarrow> LF \<notin> set s"
proof
  assume "base64_text s" and "LF \<in> set s"
  then have "LF \<in> set b64_alphabet \<or> LF = CHR ''=''"
    unfolding base64_text_def by blast
  with LF_notin_alphabet show False by simp
qed

lemma base64_text_no_colon: "base64_text s \<Longrightarrow> CHR '':'' \<notin> set s"
proof
  assume "base64_text s" and "CHR '':'' \<in> set s"
  then have "CHR '':'' \<in> set b64_alphabet \<or> CHR '':'' = CHR ''=''"
    unfolding base64_text_def by blast
  with colon_notin_alphabet show False by simp
qed

section \<open>The lines of a written manifest\<close>

lemma foldl_append_entries: "foldl (\<lambda>p s. p @ f s) h segs = h @ concat (map f segs)"
  by (induction segs arbitrary: h) auto

lemma split_segment_entry:
  assumes "LF \<notin> set (nonce s)" and "LF \<notin> set (encrypted s)"
  shows "split LF (segment_entry d s @ rest) = seg_lines d s @ split LF rest"
proof -
  have 1: "LF \<notin> set (''#EXTINF:'' @ digits d @ ''.0,'')" by simp
  have 2: "LF \<notin> set (''#EXT-X-SEGMENT-NONCE:'' @ nonce s)" using assms(1) by simp
  have eq: "segment_entry d s @ rest =
      (''#EXTINF:'' @ digits d @ ''.0,'') @ LF #
        ((''#EXT-X-SEGMENT-NONCE:'' @ nonce s) @ LF # (encrypted s @ LF # rest))"
    by (simp add: segment_entry_def)
  show ?thesis
    unfolding eq split_append_sep[OF 1] split_append_sep[OF 2] split_append_sep[OF assms(2)]
      seg_lines_def
    by simp
qed

lemma split_entries:
  assumes "\<forall>s \<in> set segs. LF \<notin> set (nonce s) \<and> LF \<notin> set (encrypted s)"
  shows "split LF (concat (map (segment_entry d) segs) @ rest) =
     concat (map (seg_lines d) segs) @ split LF rest"
  using assms by (induction segs) (simp_all add: split_segment_entry)

lemma split_header:
  "split LF (playlist_header k d @ rest) = header_lines k d @ split LF rest"
proof -
  have 1: "LF \<notin> set ''#EXTM3U''" "LF \<notin> set ''#EXT-X-VERSION:3''"
    "LF \<notin> set (''#EXT-X-TARGETDURATION:'' @ digits d)"
    "LF \<notin> set ''#EXT-X-MEDIA-SEQUENCE:0''" "LF \<notin> set ''#EXT-X-PLAYLIST-TYPE:VOD''"
    "LF \<notin> set []"
    "LF \<notin> set (''#EXT-X-CUSTOM-KEY:METHOD=CHACHA20-POLY1305,URI='' @ [DQUOTE]
        @ ''data:text/plain;base64,'' @ toBase64 k @ [DQUOTE])"
    by simp_all
  have eq: "playlist_header k d @ rest =
     ''#EXTM3U'' @ LF # (''#EXT-X-VERSION:3'' @ LF # ((''#EXT-X-TARGETDURATION:'' @ digits d) @ LF #
     (''#EXT-X-MEDIA-SEQUENCE:0'' @ LF # (''#EXT-X-PLAYLIST-TYPE:VOD'' @ LF # ([] @ LF # (
     (''#EXT-X-CUSTOM-KEY:METHOD=CHACHA20-POLY1305,URI='' @ [DQUOTE]
        @ ''data:text/plain;base64,'' @ toBase64 k @ [DQUOTE]) @ LF # ([] @ LF # rest)))))))"
    by (simp add: playlist_header_def)
  show ?thesis
    unfolding eq 1[THEN split_append_sep] header_lines_def by simp
qed

lemma lines_generateCustomM3U8:
  assumes "\<forall>s \<in> set segs. LF \<notin> set (nonce s) \<and> LF \<notin> set (encrypted s)"
  shows "split LF (generateCustomM3U8 segs k d) =
    header_lines k d @ concat (map (seg_lines d) segs) @ [''#EXT-X-ENDLIST'']"
proof -
  have "split LF ''#EXT-X-ENDLIST'' = [''#EXT-X-ENDLIST'']" by (rule split_no_sep) simp
  then show ?thesis
    using split_entries[OF assms, of d "''#EXT-X-ENDLIST''"]
    by (simp add: generateCustomM3U8_def foldl_append_entries split_header)
qed

section \<open>The nonce table\<close>

lemma directive_payload_nonce:
  assumes "CHR '':'' \<notin> set n"
  shows "directive_payload (''#EXT-X-SEGMENT-NONCE:'' @ n) = n"
proof -
  have 1: "CHR '':'' \<notin> set ''#EXT-X-SEGMENT-NONCE''" by simp
  have eq: "''#EXT-X-SEGMENT-NONCE:'' @ n = ''#EXT-X-SEGMENT-NONCE'' @ CHR '':'' # n" by simp
  show ?thesis
    unfolding directive_payload_def eq split_append_sep[OF 1] split_no_sep[OF assms] by simp
qed

lemma nonce_loop_seg_lines:
  assumes "base64_text (nonce s)" and "bare_reference (encrypted s)"
  shows "nonce_loop (seg_lines d s @ rest) m = nonce_loop rest (m(encrypted s \<mapsto> nonce s))"
proof -
  have nd: "\<not> startsWith (encrypted s) ''#EXT-X-SEGMENT-NONCE:''"
    using assms(2) startsWith_hash by (auto simp: bare_reference_def)
  have nx: "next_segment_line (encrypted s # rest) = Some (encrypted s)"
    using assms(2) by (simp add: bare_reference_def)
  have pl: "directive_payload (''#EXT-X-SEGMENT-NONCE:'' @ nonce s) = nonce s"
    by (rule directive_payload_nonce) (rule base64_text_no_colon[OF assms(1)])
  have sw: "startsWith (''#EXT-X-SEGMENT-NONCE:'' @ nonce s) ''#EXT-X-SEGMENT-NONCE:''"
    by (rule startsWith_append)
  have "nonce_loop (seg_lines d s @ rest) m =
      nonce_loop ((''#EXT-X-SEGMENT-NONCE:'' @ nonce s) # encrypted s # rest) m"
    by (simp add: seg_lines_def)
  also have "\<dots> = nonce_loop (encrypted s # rest) (m(encrypted s \<mapsto> nonce s))"
    by (simp only: nonce_loop.simps sw nx pl if_True option.case)
  also have "\<dots> = nonce_loop rest (m(encrypted s \<mapsto> nonce s))"
    using nd by simp
  finally show ?thesis .
qed

lemma nonce_loop_entries:
  assumes "\<forall>s \<in> set segs. base64_text (nonce s) \<and> bare_reference (encrypted s)"
  shows "nonce_loop (concat (map (seg_lines d) segs) @ rest) m = nonce_loop rest (table_of m segs)"
  using assms
  by (induction segs arbitrary: m) (simp_all add: nonce_loop_seg_lines)

lemma nonce_loop_header: "nonce_loop (header_lines k d @ rest) m = nonce_loop rest m"
  by (simp add: header_lines_def)

lemma table_of_other: "k \<notin> encrypted ` set segs \<Longrightarrow> table_of m segs k = m k"
  by (induction segs arbitrary: m) auto

lemma table_of_member:
  "distinct (map encrypted segs) \<Longrightarrow> s \<in> set segs \<Longrightarrow>
     table_of m segs (encrypted s) = Some (nonce s)"
proof (induction segs arbitrary: m)
  case Nil
  then show ?case by simp
next
  case (Cons a segs)
  show ?case
  proof (cases "s = a")
    case True
    with Cons.prems have "encrypted a \<notin> encrypted ` set segs" by simp
    then have "table_of (m(encrypted a \<mapsto> nonce a)) segs (encrypted a)
        = (m(encrypted a \<mapsto> nonce a)) (encrypted a)"
      by (rule table_of_other)
    with True show ?thesis by simp
  next
    case False
    with Cons show ?thesis by simp
  qed
qed

lemma parse_generated:
  assumes "\<forall>s \<in> set segs. base64_text (nonce s) \<and> bare_reference (encrypted s)"
  shows "parseSegmentNonces (generateCustomM3U8 segs k d) = table_of Map.empty segs"
proof -
  have "\<forall>s \<in> set segs. LF \<notin> set (nonce s) \<and> LF \<notin> set (encrypted s)"
    using assms by (auto simp: bare_reference_def dest: base64_text_no_LF)
  then show ?thesis
    by (simp add: parseSegmentNonces_def lines_generateCustomM3U8 nonce_loop_header
        nonce_loop_entries[OF assms])
qed

lemma next_segment_line_append:
  "next_segment_line (a @ b) =
     (case next_segment_line a of Some x \<Rightarrow> Some x | None \<Rightarrow> next_segment_line b)"
  by (induction a) auto

lemma nonce_loop_no_reference:
  "next_segment_line ls = None \<Longrightarrow> nonce_loop ls m = m"
  by (induction ls arbitrary: m) (auto split: if_splits)

lemma nonce_loop_trailing:
  "next_segment_line tail = None \<Longrightarrow> nonce_loop (pre @ tail) m = nonce_loop pre m"
proof (induction pre arbitrary: m)
  case Nil
  then show ?case by (simp add: nonce_loop_no_reference)
next
  case (Cons l pre)
  then show ?case
    by (simp add: next_segment_line_append split: option.splits)
qed

lemma next_segment_line_blank:
  "\<forall>l \<in> set post. trim l = [] \<Longrightarrow> next_segment_line post = None"
  by (induction post) auto

lemma basename_plain: "CHR ''/'' \<notin> set e \<Longrightarrow> basename e = e"
  by (simp add: basename_def split_no_sep pop_def)

text \<open>
  C3 (as amended). The reader, applied to the text that the writer produces for a list of
  segments, maps the basename of every segment to the nonce given for it, provided the
  nonces are base64 text and the file names are distinct, free of \<open>/\<close>, and bare
  references (not empty, on one line, not starting with \<open>#\<close>, no white space around
  them).
\<close>

theorem manifest_round_trip:
  assumes "\<forall>s \<in> set segs. base64_text (nonce s) \<and> bare_reference (encrypted s)
             \<and> CHR ''/'' \<notin> set (encrypted s)"
    and "distinct (map encrypted segs)"
  shows "\<forall>s \<in> set segs.
     parseSegmentNonces (generateCustomM3U8 segs masterKey segmentDuration)
       (basename (encrypted s)) = Some (nonce s)"
proof -
  have wf: "\<forall>s \<in> set segs. base64_text (nonce s) \<and> bare_reference (encrypted s)"
    using assms(1) by blast
  show ?thesis
    using assms by (simp add: parse_generated[OF wf] table_of_member basename_plain)
qed

theorem manifest_round_trip_witness:
  "list_all (\<lambda>s. base64_text (nonce s) \<and> bare_reference (encrypted s)
               \<and> CHR ''/'' \<notin> set (encrypted s)) example_segments
   \<and> distinct (map encrypted example_segments)
   \<and> parseSegmentNonces (generateCustomM3U8 example_segments (replicate 32 7) 10)
        (basename ''segment0000.enc'') = Some ''AAAAAAAAAAAAAAAA''
   \<and> parseSegmentNonces (generateCustomM3U8 example_segments (replicate 32 7) 10)
        (basename ''segment0001.enc'') = Some ''AQIDBAUGBwgJCgsM''"
proof -
  have h1: "\<forall>s \<in> set example_segments. base64_text (nonce s) \<and> bare_reference (encrypted s)
      \<and> CHR ''/'' \<notin> set (encrypted s)"
    by (simp add: example_segments_def base64_text_def b64_alphabet_def bare_reference_def
        trim_def isWhiteSpace_def)
  have h2: "distinct (map encrypted example_segments)"
    by (simp add: example_segments_def)
  from manifest_round_trip[OF h1 h2, of "replicate 32 7" 10] h1 h2 show ?thesis
    by (simp add: example_segments_def list_all_iff)
qed

text \<open>
  C3 as stated fails for a file name that starts with \<open>#\<close>: the reader takes the
  reference line for a comment, and the table has no entry under the basename of the
  segment.
\<close>

theorem manifest_round_trip_counterexample:
  "parseSegmentNonces (generateCustomM3U8 [hash_segment] (replicate 32 7) 10)
     (basename ''#intro.enc'') = None"
proof -
  have b: "basename ''#intro.enc'' = ''#intro.enc''"
    by (rule basename_plain) simp
  have "\<forall>s \<in> set [hash_segment]. LF \<notin> set (nonce s) \<and> LF \<notin> set (encrypted s)"
    by (simp add: hash_segment_def)
  from lines_generateCustomM3U8[OF this]
  have "split LF (generateCustomM3U8 [hash_segment] (replicate 32 7) 10) =
      header_lines (replicate 32 7) 10 @ seg_lines 10 hash_segment @ [''#EXT-X-ENDLIST'']"
    by simp
  then show ?thesis
    unfolding b
    by (simp add: parseSegmentNonces_def nonce_loop_header seg_lines_def hash_segment_def)
qed

text \<open>
  C6 (as amended). Reading never fails. Where a nonce directive is the last line that is
  not blank, it adds no entry: the table is the one built from the lines before it.
\<close>

theorem truncated_nonce_directive_ignored:
  assumes "split LF m3u8Content = pre @ directive # post"
    and "startsWith directive ''#EXT-X-SEGMENT-NONCE:''"
    and "\<forall>l \<in> set post. trim l = []"
  shows "parseSegmentNonces m3u8Content = nonce_loop pre Map.empty"
proof -
  have "startsWith directive ''#''"
    using assms(2) by (rule startsWith_hash)
  then have "next_segment_line (directive # post) = None"
    using next_segment_line_blank[OF assms(3)] by simp
  then show ?thesis
    by (simp add: parseSegmentNonces_def assms(1) nonce_loop_trailing)
qed

theorem truncated_nonce_directive_ignored_witness:
  "split LF (''#EXT-X-SEGMENT-NONCE:AAAA'' @ [LF] @ ''seg.enc'' @ [LF] @ ''#EXT-X-SEGMENT-NONCE:BBBB'' @ [LF])
     = [''#EXT-X-SEGMENT-NONCE:AAAA'', ''seg.enc''] @ ''#EXT-X-SEGMENT-NONCE:BBBB'' # [[]]
   \<and> startsWith ''#EXT-X-SEGMENT-NONCE:BBBB'' ''#EXT-X-SEGMENT-NONCE:''
   \<and> trim [] = []
   \<and> parseSegmentNonces
        (''#EXT-X-SEGMENT-NONCE:AAAA'' @ [LF] @ ''seg.enc'' @ [LF] @ ''#EXT-X-SEGMENT-NONCE:BBBB'' @ [LF])
       = nonce_loop [''#EXT-X-SEGMENT-NONCE:AAAA'', ''seg.enc''] Map.empty"
proof -
  have h1: "split LF (''#EXT-X-SEGMENT-NONCE:AAAA'' @ [LF] @ ''seg.enc'' @ [LF] @ ''#EXT-X-SEGMENT-NONCE:BBBB'' @ [LF])
     = [''#EXT-X-SEGMENT-NONCE:AAAA'', ''seg.enc''] @ ''#EXT-X-SEGMENT-NONCE:BBBB'' # [[]]"
    by simp
  have h2: "startsWith ''#EXT-X-SEGMENT-NONCE:BBBB'' ''#EXT-X-SEGMENT-NONCE:''"
    by simp
  have h3: "\<forall>l \<in> set [[]]. trim l = []"
    by (simp add: trim_def)
  from truncated_nonce_directive_ignored[OF h1 h2 h3] h1 h2 h3 show ?thesis
    by simp
qed

lemma truncated_manifest_key:
  "parseEncryptionKey True truncated_manifest = Inr (replicate 32 0)"
  by code_simp

lemma truncated_manifest_nonces: "dom (parseSegmentNonces truncated_manifest) = {}"
  by (simp add: parseSegmentNonces_def truncated_manifest_def key_line_def trim_def)

lemma truncated_manifest_cleaned:
  "cleanM3U8ForHls example_location truncated_manifest (Some playlist_url)
     = ''#EXTM3U'' @ [LF] @ ''#EXTINF:10.0,''"
  by code_simp

lemma truncated_manifest_length: "length truncated_manifest = 177"
  by (simp add: truncated_manifest_def key_line_def)

text \<open>
  C6 as stated fails: for a manifest that ends after a nonce directive the fetch succeeds,
  with the cleaned manifest, and the table stored is empty.
\<close>

theorem truncated_nonce_directive_counterexample:
  "fst (onload example_location (initialize initialState) playlist_url (ok_text truncated_manifest))
     = onSuccess playlist_url (Text (''#EXTM3U'' @ [LF] @ ''#EXTINF:10.0,'')) 177 177
   \<and> dom (segmentNonces (snd (onload example_location (initialize initialState) playlist_url
              (ok_text truncated_manifest)))) = {}"
  by (simp add: onload_def ok_text_def initialize_def initialState_def truncated_manifest_key
      truncated_manifest_nonces truncated_manifest_cleaned truncated_manifest_length)

section \<open>Cleaning a manifest\<close>

lemma clean_loop_acc: "clean_loop loc b ls acc = acc @ clean_loop loc b ls []"
proof (induction ls arbitrary: acc)
  case Nil
  then show ?case by simp
next
  case (Cons raw ls)
  show ?case
    using Cons.IH[of "acc @ [serverUrl loc (trim raw)]"] Cons.IH[of "acc @ [trim raw]"]
      Cons.IH[of "[serverUrl loc (trim raw)]"] Cons.IH[of "[trim raw]"] Cons.IH[of acc]
    by (simp add: Let_def)
qed

lemma clean_loop_Cons:
  "clean_loop loc b (raw # ls) [] =
     (if trim raw = [] \<or> proprietary (trim raw) then []
      else if rewritten b (trim raw) then [serverUrl loc (trim raw)] else [trim raw])
     @ clean_loop loc b ls []"
  using clean_loop_acc[of loc b ls "[serverUrl loc (trim raw)]"]
    clean_loop_acc[of loc b ls "[trim raw]"]
  by (simp add: Let_def proprietary_def rewritten_def)

lemma clean_loop_append:
  "clean_loop loc b (xs @ ys) [] = clean_loop loc b xs [] @ clean_loop loc b ys []"
  by (induction xs) (simp_all add: clean_loop_Cons del: clean_loop.simps(2))

lemma clean_loop_map_filter:
  "clean_loop loc b ls [] =
     map (\<lambda>l. if rewritten b l then serverUrl loc l else l)
       (filter (\<lambda>l. l \<noteq> [] \<and> \<not> proprietary l) (map trim ls))"
  by (induction ls) (simp_all add: clean_loop_Cons del: clean_loop.simps(2))

lemma endsWith_not_Nil: "endsWith s (x # p) \<Longrightarrow> s \<noteq> []"
  by (auto simp: endsWith_def)

text \<open>
  C8 (as amended). The cleaned manifest is made of the lines of the original, each trimmed
  of the white space around it, without the blank lines and without the lines of the two
  proprietary directives, in their order, a line that is a relative \<open>.enc\<close> reference
  being replaced by its server URL when the base URL is a \<open>blob:\<close> URL. It is identical
  to the input when no line of the input is blank, proprietary, rewritten or has white
  space around it.
\<close>

theorem cleaned_manifest_lines:
  "cleanM3U8ForHls loc m3u8Content baseUrl =
     join [LF] (map (\<lambda>l. if rewritten baseUrl l then serverUrl loc l else l)
       (filter (\<lambda>l. l \<noteq> [] \<and> \<not> proprietary l) (map trim (split LF m3u8Content))))
   \<and> ((\<forall>l \<in> set (split LF m3u8Content).
          trim l = l \<and> l \<noteq> [] \<and> \<not> proprietary l \<and> \<not> rewritten baseUrl l)
        \<longrightarrow> cleanM3U8ForHls loc m3u8Content baseUrl = m3u8Content)"
proof (intro conjI impI)
  show lines: "cleanM3U8ForHls loc m3u8Content baseUrl =
     join [LF] (map (\<lambda>l. if rewritten baseUrl l then serverUrl loc l else l)
       (filter (\<lambda>l. l \<noteq> [] \<and> \<not> proprietary l) (map trim (split LF m3u8Content))))"
    by (simp add: cleanM3U8ForHls_def clean_loop_map_filter)
  assume plain: "\<forall>l \<in> set (split LF m3u8Content).
     trim l = l \<and> l \<noteq> [] \<and> \<not> proprietary l \<and> \<not> rewritten baseUrl l"
  then have 1: "map trim (split LF m3u8Content) = split LF m3u8Content"
    by (simp add: map_idI)
  from plain have 2: "filter (\<lambda>l. l \<noteq> [] \<and> \<not> proprietary l) (split LF m3u8Content)
      = split LF m3u8Content"
    by (simp add: filter_id_conv)
  from plain have 3: "map (\<lambda>l. if rewritten baseUrl l then serverUrl loc l else l)
      (split LF m3u8Content) = split LF m3u8Content"
    by (simp add: map_idI)
  show "cleanM3U8ForHls loc m3u8Content baseUrl = m3u8Content"
    unfolding lines 1 2 3 by (rule join_split)
qed

theorem cleaned_manifest_lines_witness:
  "list_all (\<lambda>l. trim l = l \<and> l \<noteq> [] \<and> \<not> proprietary l \<and> \<not> rewritten None l)
     (split LF (''#EXTM3U'' @ [LF] @ ''#EXT-X-ENDLIST''))
   \<and> cleanM3U8ForHls example_location (''#EXTM3U'' @ [LF] @ ''#EXT-X-ENDLIST'') None
       = ''#EXTM3U'' @ [LF] @ ''#EXT-X-ENDLIST''"
proof -
  have h: "\<forall>l \<in> set (split LF (''#EXTM3U'' @ [LF] @ ''#EXT-X-ENDLIST'')).
      trim l = l \<and> l \<noteq> [] \<and> \<not> proprietary l \<and> \<not> rewritten None l"
    by (simp add: trim_def isWhiteSpace_def proprietary_def rewritten_def)
  from cleaned_manifest_lines[of example_location "''#EXTM3U'' @ [LF] @ ''#EXT-X-ENDLIST''" None] h
  show ?thesis
    unfolding list_all_iff by blast
qed

text \<open>
  C8 as stated fails: a manifest without any proprietary directive that ends with a line
  feed loses that line feed, because its last, empty line is skipped.
\<close>

theorem cleaned_manifest_counterexample:
  "cleanM3U8ForHls example_location (''#EXTM3U'' @ [LF] @ ''#EXT-X-ENDLIST'' @ [LF]) None
     = ''#EXTM3U'' @ [LF] @ ''#EXT-X-ENDLIST''
   \<and> cleanM3U8ForHls example_location (''#EXTM3U'' @ [LF] @ ''#EXT-X-ENDLIST'' @ [LF]) None
     \<noteq> ''#EXTM3U'' @ [LF] @ ''#EXT-X-ENDLIST'' @ [LF]"
  by (simp add: cleanM3U8ForHls_def trim_def isWhiteSpace_def)

text \<open>
  C10. When the base URL is a \<open>blob:\<close> URL, a line that after trimming ends in \<open>.enc\<close>
  and does not start with \<open>#\<close>, \<open>http\<close> or \<open>/\<close> is replaced in the cleaned manifest by
  \<open>protocol//host/output/my-encrypted-video/\<close> followed by the line; the lines before and
  after it are cleaned on their own.
\<close>

theorem hardcoded_rewrite_target:
  assumes "split LF m3u8Content = pre @ raw # post"
    and "startsWith baseUrl ''blob:''"
    and "endsWith (trim raw) ''.enc''"
    and "\<not> startsWith (trim raw) ''#''"
    and "\<not> startsWith (trim raw) ''http''"
    and "\<not> startsWith (trim raw) ''/''"
  shows "cleanM3U8ForHls loc m3u8Content (Some baseUrl) =
     join [LF] (clean_loop loc (Some baseUrl) pre []
       @ [protocol loc @ ''//'' @ host loc @ ''/output/my-encrypted-video/'' @ trim raw]
       @ clean_loop loc (Some baseUrl) post [])"
proof -
  have ne: "trim raw \<noteq> []"
    using assms(3) by (rule endsWith_not_Nil)
  have np: "\<not> proprietary (trim raw)"
    using assms(4) startsWith_hash by (auto simp: proprietary_def)
  have "baseUrl \<noteq> []"
    using assms(2) by auto
  then have rw: "rewritten (Some baseUrl) (trim raw)"
    using assms(2-6) by (simp add: rewritten_def blob_base_def)
  show ?thesis
    unfolding cleanM3U8ForHls_def assms(1) clean_loop_append clean_loop_Cons
    using ne np rw by (simp add: serverUrl_def)
qed

theorem hardcoded_rewrite_target_witness:
  "split LF (''#EXTM3U'' @ [LF] @ ''segment0000.enc'' @ [LF] @ ''#EXT-X-ENDLIST'')
     = [''#EXTM3U''] @ ''segment0000.enc'' # [''#EXT-X-ENDLIST'']
   \<and> startsWith ''blob:http://localhost:5173/1b2c'' ''blob:''
   \<and> endsWith (trim ''segment0000.enc'') ''.enc''
   \<and> \<not> startsWith (trim ''segment0000.enc'') ''#''
   \<and> \<not> startsWith (trim ''segment0000.enc'') ''http''
   \<and> \<not> startsWith (trim ''segment0000.enc'') ''/''
   \<and> cleanM3U8ForHls example_location
        (''#EXTM3U'' @ [LF] @ ''segment0000.enc'' @ [LF] @ ''#EXT-X-ENDLIST'')
        (Some ''blob:http://localhost:5173/1b2c'')
       = ''#EXTM3U'' @ [LF] @ ''http://localhost:3000/output/my-encrypted-video/segment0000.enc''
         @ [LF] @ ''#EXT-X-ENDLIST''"
proof -
  have h1: "split LF (''#EXTM3U'' @ [LF] @ ''segment0000.enc'' @ [LF] @ ''#EXT-X-ENDLIST'')
     = [''#EXTM3U''] @ ''segment0000.enc'' # [''#EXT-X-ENDLIST'']"
    by simp
  have t: "trim ''segment0000.enc'' = ''segment0000.enc''"
    by (simp add: trim_def isWhiteSpace_def)
  have h2: "startsWith ''blob:http://localhost:5173/1b2c'' ''blob:''" by simp
  have h3: "endsWith (trim ''segment0000.enc'') ''.enc''" by (simp add: t endsWith_def)
  have h4: "\<not> startsWith (trim ''segment0000.enc'') ''#''" by (simp add: t)
  have h5: "\<not> startsWith (trim ''segment0000.enc'') ''http''" by (simp add: t)
  have h6: "\<not> startsWith (trim ''segment0000.enc'') ''/''" by (simp add: t)
  from hardcoded_rewrite_target[OF h1 h2 h3 h4 h5 h6, of example_location] h1 h2 h3 h4 h5 h6
  show ?thesis
    by (simp add: t example_location_def trim_def isWhiteSpace_def)
qed

section \<open>The loader\<close>

text \<open>
  C9. A completed request whose status is not exactly 200 invokes the error callback with
  that status and the status text; the shared state stays as it was, and the result does
  not depend on the body of the response.
\<close>

theorem only_status_200_succeeds:
  assumes "status xhr \<noteq> 200"
  shows "onload loc st url xhr = (onError (status xhr) (statusText xhr), st)"
  using assms by (simp add: onload_def)

theorem only_status_200_succeeds_witness:
  "status \<lparr>status = 206, statusText = ''Partial Content'', response = ArrayBuffer [1, 2, 3]\<rparr> \<noteq> 200
   \<and> onload example_location (initialize initialState) ''http://localhost:3000/output/v/segment0000.enc''
        \<lparr>status = 206, statusText = ''Partial Content'', response = ArrayBuffer [1, 2, 3]\<rparr>
       = (onError 206 ''Partial Content'', initialize initialState)"
proof -
  have h: "status \<lparr>status = 206, statusText = ''Partial Content'', response = ArrayBuffer [1, 2, 3]\<rparr> \<noteq> 200"
    by simp
  from only_status_200_succeeds[OF h, of example_location "initialize initialState"
      "''http://localhost:3000/output/v/segment0000.enc''"] h
  show ?thesis by simp
qed

lemma malformed_key_manifest_key:
  "parseEncryptionKey True malformed_key_manifest = Inl (Error ''Invalid base64 key format'')"
  by code_simp

lemma malformed_key_manifest_length: "length malformed_key_manifest = 166"
  by (simp add: malformed_key_manifest_def key_line_def)

text \<open>
  C4, evaluated where it fails. The manifest has a key directive whose payload is not
  base64, so \<open>parseEncryptionKey\<close> throws \<open>Invalid base64 key format\<close> and not the error
  of a missing key. The loader still invokes the success callback with the body as it
  came, and the shared state stays as it was.
\<close>

theorem malformed_key_passes_through:
  "parseEncryptionKey True malformed_key_manifest = Inl (Error ''Invalid base64 key format'')
   \<and> onload example_location (initialize initialState) playlist_url
         (ok_text malformed_key_manifest)
       = (onSuccess playlist_url (Text malformed_key_manifest) 166 166, initialize initialState)"
  by (simp add: onload_def ok_text_def initialize_def initialState_def
      malformed_key_manifest_key malformed_key_manifest_length)

lemma absolute_manifest_key:
  "parseEncryptionKey True absolute_manifest = Inr (replicate 32 0)"
  by code_simp

lemma absolute_manifest_full:
  "parseSegmentNonces absolute_manifest ''http://localhost:3000/output/v/segment0000.enc''
     = Some ''AAAAAAAAAAAAAAAA''"
  by (simp add: parseSegmentNonces_def absolute_manifest_def key_line_def trim_def
      isWhiteSpace_def directive_payload_def)

lemma absolute_manifest_base:
  "parseSegmentNonces absolute_manifest ''segment0000.enc'' = None"
  by (simp add: parseSegmentNonces_def absolute_manifest_def key_line_def trim_def
      isWhiteSpace_def directive_payload_def)

lemma absolute_url_parts:
  "endsWith ''http://localhost:3000/output/v/segment0000.enc'' ''.enc''
   \<and> pop (split (CHR ''/'') ''http://localhost:3000/output/v/segment0000.enc'')
       = Some ''segment0000.enc''"
  by (simp add: endsWith_def pop_def)

text \<open>
  C7, evaluated where it fails. The manifest names its segment by an absolute URL. The
  table gets the whole line as the key and has nothing under the base name; the fetch of
  that very URL then looks the base name up and ends in the error callback.
\<close>

theorem nonce_table_keyed_by_whole_line:
  "parseSegmentNonces absolute_manifest ''http://localhost:3000/output/v/segment0000.enc''
     = Some ''AAAAAAAAAAAAAAAA''
   \<and> parseSegmentNonces absolute_manifest ''segment0000.enc'' = None
   \<and> fst (onload example_location
            (snd (onload example_location (initialize initialState) playlist_url
                    (ok_text absolute_manifest)))
            ''http://localhost:3000/output/v/segment0000.enc''
            \<lparr>status = 200, statusText = ''OK'', response = ArrayBuffer data\<rparr>)
       = onError 200 ''Nonce not found for segment: segment0000.enc''"
  using absolute_url_parts
  by (simp add: onload_def ok_text_def initialize_def initialState_def decrypt_response_def
      absolute_manifest_key absolute_manifest_full absolute_manifest_base)

section \<open>The segment cipher\<close>

text \<open>The quarter round and the one-time authenticator reproduce the test vectors of
  RFC 8439, sections 2.1.1 and 2.5.2.\<close>

lemma rfc8439_quarterround_vector:
  "quarterround 0 1 2 3 [0x11111111, 0x01020304, 0x9b8d6f43, 0x01234567]
     = [0xea2a92f4, 0xcb1cf8ce, 0x4581472e, 0x5881c4bb]"
  by code_simp

lemma rfc8439_poly1305_vector:
  "poly1305_mac
     [0x43, 0x72, 0x79, 0x70, 0x74, 0x6f, 0x67, 0x72, 0x61, 0x70, 0x68, 0x69, 0x63, 0x20, 0x46, 0x6f,
      0x72, 0x75, 0x6d, 0x20, 0x52, 0x65, 0x73, 0x65, 0x61, 0x72, 0x63, 0x68, 0x20, 0x47, 0x72, 0x6f,
      0x75, 0x70]
     [0x85, 0xd6, 0xbe, 0x78, 0x57, 0x55, 0x6d, 0x33, 0x7f, 0x44, 0x52, 0xfe, 0x42, 0xd5, 0x06, 0xa8,
      0x01, 0x03, 0x80, 0x8a, 0xfb, 0x0d, 0xb2, 0xfd, 0x4a, 0xbf, 0xf6, 0xaf, 0x41, 0x49, 0xf5, 0x1b]
   = [0xa8, 0x06, 0x1d, 0xc1, 0x30, 0x51, 0x36, 0xc6, 0xc2, 0x2b, 0x8b, 0xaf, 0x0c, 0x01, 0x27, 0xa9]"
  by code_simp

lemma length_le_words: "length (le_words bs) = length bs div 4"
  by (induction bs rule: le_words.induct) simp_all

lemma length_quarterround [simp]: "length (quarterround a b c d x) = length x"
  by (simp add: quarterround_def Let_def)

lemma length_inner_block [simp]: "length (inner_block x) = length x"
  by (simp add: inner_block_def)

lemma length_rounds [simp]: "length ((inner_block ^^ n) x) = length x"
  by (induction n) simp_all

lemma length_concat_word_bytes: "length (concat (map word_bytes ws)) = 4 * length ws"
  by (induction ws) (simp_all add: word_bytes_def)

lemma length_chacha20_block:
  assumes "length key = 32" and "length npub = 12"
  shows "length (chacha20_block key counter npub) = 64"
proof -
  define state where
    "state = [0x61707865, 0x3320646e, 0x79622d32, 0x6b206574] @ le_words key @ [counter] @ le_words npub"
  have "length state = 16"
    using assms by (simp add: state_def length_le_words)
  then have "length (map2 (+) state ((inner_block ^^ 10) state)) = 16"
    by simp
  then have "length (concat (map word_bytes (map2 (+) state ((inner_block ^^ 10) state)))) = 64"
    by (simp only: length_concat_word_bytes)
  then show ?thesis
    by (simp only: chacha20_block_def Let_def state_def)
qed

lemma length_concat_blocks:
  "(\<And>x. x \<in> set xs \<Longrightarrow> length (f x) = n) \<Longrightarrow> length (concat (map f xs)) = n * length xs"
  by (induction xs) simp_all

lemma length_chacha20_keystream:
  assumes "length key = 32" and "length npub = 12"
  shows "length (chacha20_keystream key counter npub n) = 64 * ((n + 63) div 64)"
  unfolding chacha20_keystream_def
  by (subst length_concat_blocks[where n = 64]) (simp_all add: length_chacha20_block[OF assms])

lemma keystream_covers:
  assumes "length key = 32" and "length npub = 12"
  shows "n \<le> length (chacha20_keystream key counter npub n)"
  unfolding length_chacha20_keystream[OF assms] by presburger

lemma length_chacha20_encrypt:
  assumes "length key = 32" and "length npub = 12"
  shows "length (chacha20_encrypt key counter npub msg) = length msg"
  using keystream_covers[OF assms, of "length msg" counter]
  by (simp add: chacha20_encrypt_def)

lemma xor_twice:
  "length msg \<le> length ks \<Longrightarrow> map2 (XOR) (map2 (XOR) msg ks) ks = (msg :: bytes)"
proof (induction msg arbitrary: ks)
  case Nil
  then show ?case by simp
next
  case (Cons b msg)
  then obtain k ks' where "ks = k # ks'" by (cases ks) auto
  with Cons show ?case by (simp add: xor.assoc)
qed

lemma chacha20_encrypt_twice:
  assumes "length key = 32" and "length npub = 12"
  shows "chacha20_encrypt key counter npub (chacha20_encrypt key counter npub msg) = msg"
proof -
  have "length (chacha20_encrypt key counter npub msg) = length msg"
    by (rule length_chacha20_encrypt[OF assms])
  then show ?thesis
    using keystream_covers[OF assms, of "length msg" counter]
    by (simp add: chacha20_encrypt_def[of key counter npub] xor_twice)
qed

lemma length_poly1305_mac [simp]: "length (poly1305_mac msg key) = 16"
  by (simp add: poly1305_mac_def num_to_le_def Let_def)

lemma length_aead_tag [simp]: "length (aead_tag key npub aad ciphertext) = 16"
  by (simp add: aead_tag_def)

lemma length_aead_encrypt:
  assumes "length key = 32" and "length npub = 12"
  shows "length (aead_encrypt key npub aad plaintext) = length plaintext + 16"
  by (simp add: aead_encrypt_def Let_def length_chacha20_encrypt[OF assms])

lemma aead_round_trip:
  assumes "length key = 32" and "length npub = 12"
  shows "aead_decrypt key npub aad (aead_encrypt key npub aad plaintext) = Some plaintext"
  by (simp add: aead_decrypt_def aead_encrypt_def Let_def chacha20_encrypt_twice[OF assms])

text \<open>Decryption returns bytes only when the last 16 bytes of its input are the tag of
  the bytes before them, and then returns all of them; a ciphertext whose tag alone was
  altered is rejected, whatever the key.\<close>

lemma aead_decrypt_Some:
  assumes "aead_decrypt key npub aad c = Some m"
  shows "16 \<le> length c
     \<and> drop (length c - 16) c = aead_tag key npub aad (take (length c - 16) c)
     \<and> m = chacha20_encrypt key 1 npub (take (length c - 16) c)"
  using assms by (auto simp: aead_decrypt_def Let_def split: if_splits)

lemma altered_tag_rejected:
  assumes "length tag = 16" and "tag \<noteq> aead_tag key npub aad body"
  shows "aead_decrypt key npub aad (body @ tag) = None"
  using assms by (auto simp: aead_decrypt_def Let_def)

text \<open>
  C1. With a key of 32 bytes and a nonce of 12 bytes, \<open>encryptSegment\<close> returns a
  ciphertext, \<open>decryptSegment\<close> of the server returns the plaintext from it, and so does
  \<open>decryptSegment\<close> of the loader, for every nonce text that decodes to the nonce.
\<close>

theorem segment_round_trip:
  assumes "length key = 32" and "length npub = 12"
  shows "\<exists>ciphertext. encryptSegment plaintext key npub = Inr ciphertext
     \<and> decryptSegment ciphertext key npub = Inr plaintext
     \<and> (\<forall>nonce_text. decode_nonce nonce_text = Inr npub \<longrightarrow>
           loader_decryptSegment True ciphertext key nonce_text = Inr plaintext)"
proof (intro exI conjI allI impI)
  show "encryptSegment plaintext key npub = Inr (aead_encrypt key npub [] plaintext)"
    using assms by (simp add: encryptSegment_def crypto_aead_chacha20poly1305_ietf_encrypt_def)
  show "decryptSegment (aead_encrypt key npub [] plaintext) key npub = Inr plaintext"
    using assms
    by (simp add: decryptSegment_def crypto_aead_chacha20poly1305_ietf_decrypt_def
        length_aead_encrypt aead_round_trip)
  fix nonce_text
  assume "decode_nonce nonce_text = Inr npub"
  then show "loader_decryptSegment True (aead_encrypt key npub [] plaintext) key nonce_text
      = Inr plaintext"
    using assms
    by (simp add: loader_decryptSegment_def wrappers_decrypt_def length_aead_encrypt
        aead_round_trip)
qed

lemma decode_nonce_zero: "decode_nonce ''AAAAAAAAAAAAAAAA'' = Inr (replicate 12 0)"
  by code_simp

theorem segment_round_trip_witness:
  "length (replicate 32 (7 :: byte)) = 32 \<and> length (replicate 12 (0 :: byte)) = 12
   \<and> decode_nonce ''AAAAAAAAAAAAAAAA'' = Inr (replicate 12 0)
   \<and> (\<exists>ciphertext. encryptSegment [1, 2, 3] (replicate 32 7) (replicate 12 0) = Inr ciphertext
        \<and> decryptSegment ciphertext (replicate 32 7) (replicate 12 0) = Inr [1, 2, 3]
        \<and> loader_decryptSegment True ciphertext (replicate 32 7) ''AAAAAAAAAAAAAAAA''
            = Inr [1, 2, 3])"
proof -
  have h1: "length (replicate 32 (7 :: byte)) = 32" by simp
  have h2: "length (replicate 12 (0 :: byte)) = 12" by simp
  from segment_round_trip[OF h1 h2, of "[1, 2, 3]"] decode_nonce_zero h1 h2
  show ?thesis by blast
qed

lemma malformed_is_not_integrity:
  "malformed_key_material e \<Longrightarrow> \<not> integrity_failure e"
  by (auto simp: malformed_key_material_def integrity_failure_def)

lemma binding_rejects:
  assumes "length key \<noteq> 32 \<or> length npub \<noteq> 12"
  shows "crypto_aead_chacha20poly1305_ietf_encrypt (length m + 16) m ad npub key = Inl e
           \<Longrightarrow> malformed_key_material e"
    and "\<exists>e. crypto_aead_chacha20poly1305_ietf_encrypt (length m + 16) m ad npub key = Inl e"
    and "m_length + 16 = length c \<Longrightarrow>
           crypto_aead_chacha20poly1305_ietf_decrypt m_length c ad npub key = Inl e
           \<Longrightarrow> malformed_key_material e"
    and "m_length + 16 = length c \<Longrightarrow>
           \<exists>e. crypto_aead_chacha20poly1305_ietf_decrypt m_length c ad npub key = Inl e"
  using assms
  by (auto simp: crypto_aead_chacha20poly1305_ietf_encrypt_def
      crypto_aead_chacha20poly1305_ietf_decrypt_def malformed_key_material_def
      split: if_splits)

lemma loader_rejects:
  assumes "decode_nonce nonce_text = Inr npub" and "length key \<noteq> 32 \<or> length npub \<noteq> 12"
  shows "loader_decryptSegment True encryptedData key nonce_text =
     Inl (Error (if length key \<noteq> 32
                 then ''Decryption failed: Invalid key size: expected 32 bytes, got ''
                      @ digits (length key)
                 else ''Decryption failed: Invalid nonce size: expected 12 bytes, got ''
                      @ digits (length npub)))"
  using assms by (auto simp: loader_decryptSegment_def)

text \<open>
  C5 (as amended). A key that is not 32 bytes long or a nonce that is not 12 bytes long is
  rejected, by an error that tells of the wrong size and differs from the error of a tag
  that does not verify: by \<open>encryptSegment\<close>; by \<open>decryptSegment\<close> of the server, when
  the ciphertext has at least the 16 bytes of a tag; and by \<open>decryptSegment\<close> of the
  loader, when the library is initialised and the nonce text decodes to the nonce. The
  result is the same whatever the data, so the cipher has not run.
\<close>

theorem key_material_validation:
  assumes "length key \<noteq> 32 \<or> length npub \<noteq> 12"
  shows "(\<exists>e. encryptSegment plaintext key npub = Inl e
            \<and> malformed_key_material e \<and> \<not> integrity_failure e)
     \<and> (16 \<le> length ciphertext \<longrightarrow>
          (\<exists>e. decryptSegment ciphertext key npub = Inl e
            \<and> malformed_key_material e \<and> \<not> integrity_failure e))
     \<and> (\<forall>nonce_text. decode_nonce nonce_text = Inr npub \<longrightarrow>
          (\<exists>e. (\<forall>encryptedData. loader_decryptSegment True encryptedData key nonce_text = Inl e)
            \<and> malformed_key_material e \<and> \<not> integrity_failure e))"
proof (intro conjI impI allI)
  obtain e where e: "encryptSegment plaintext key npub = Inl e"
    using binding_rejects(2)[OF assms] by (auto simp: encryptSegment_def)
  then have "malformed_key_material e"
    using binding_rejects(1)[OF assms] by (simp add: encryptSegment_def)
  with e show "\<exists>e. encryptSegment plaintext key npub = Inl e
      \<and> malformed_key_material e \<and> \<not> integrity_failure e"
    using malformed_is_not_integrity by blast
next
  assume len: "16 \<le> length ciphertext"
  then have eq: "length ciphertext - 16 + 16 = length ciphertext" by simp
  obtain e where e: "decryptSegment ciphertext key npub = Inl e"
    using binding_rejects(4)[OF assms eq] len by (auto simp: decryptSegment_def)
  then have "malformed_key_material e"
    using binding_rejects(3)[OF assms eq] len by (simp add: decryptSegment_def)
  with e show "\<exists>e. decryptSegment ciphertext key npub = Inl e
      \<and> malformed_key_material e \<and> \<not> integrity_failure e"
    using malformed_is_not_integrity by blast
next
  fix nonce_text
  assume dec: "decode_nonce nonce_text = Inr npub"
  let ?e = "Error (if length key \<noteq> 32
                 then ''Decryption failed: Invalid key size: expected 32 bytes, got ''
                      @ digits (length key)
                 else ''Decryption failed: Invalid nonce size: expected 12 bytes, got ''
                      @ digits (length npub))"
  have "malformed_key_material ?e"
    by (simp add: malformed_key_material_def)
  then show "\<exists>e. (\<forall>encryptedData. loader_decryptSegment True encryptedData key nonce_text = Inl e)
      \<and> malformed_key_material e \<and> \<not> integrity_failure e"
    using loader_rejects[OF dec assms] malformed_is_not_integrity by blast
qed

lemma digits_31: "digits 31 = ''31''"
  by (simp add: digits.simps digit_def)

theorem key_material_validation_witness:
  "length (replicate 31 (7 :: byte)) \<noteq> 32
   \<and> 16 \<le> length (replicate 16 (0 :: byte))
   \<and> decode_nonce ''AAAAAAAAAAAAAAAA'' = Inr (replicate 12 0)
   \<and> encryptSegment [1, 2, 3] (replicate 31 7) (replicate 12 0)
       = Inl (Error ''k must be 'crypto_aead_chacha20poly1305_ietf_KEYBYTES' bytes'')
   \<and> decryptSegment (replicate 16 0) (replicate 31 7) (replicate 12 0)
       = Inl (Error ''k must be 'crypto_aead_chacha20poly1305_ietf_KEYBYTES' bytes'')
   \<and> loader_decryptSegment True (replicate 16 0) (replicate 31 7) ''AAAAAAAAAAAAAAAA''
       = Inl (Error ''Decryption failed: Invalid key size: expected 32 bytes, got 31'')
   \<and> malformed_key_material
        (Error ''Decryption failed: Invalid key size: expected 32 bytes, got 31'')
   \<and> \<not> integrity_failure
        (Error ''Decryption failed: Invalid key size: expected 32 bytes, got 31'')"
proof -
  have h: "length (replicate 31 (7 :: byte)) \<noteq> 32 \<or> length (replicate 12 (0 :: byte)) \<noteq> 12"
    by simp
  have l: "loader_decryptSegment True (replicate 16 0) (replicate 31 7) ''AAAAAAAAAAAAAAAA''
       = Inl (Error ''Decryption failed: Invalid key size: expected 32 bytes, got 31'')"
    by (simp add: loader_decryptSegment_def decode_nonce_zero digits_31)
  from key_material_validation[OF h, of "[1, 2, 3]" "replicate 16 0"] decode_nonce_zero l
  show ?thesis
    by (auto simp: encryptSegment_def decryptSegment_def
        crypto_aead_chacha20poly1305_ietf_encrypt_def
        crypto_aead_chacha20poly1305_ietf_decrypt_def)
qed

lemma decode_nonce_garbage: "decode_nonce ''!!!'' = Inl atob_failure"
  by code_simp

text \<open>
  C5 as stated fails, each time with a key of 31 bytes: for a ciphertext of 15 bytes the
  server's \<open>decryptSegment\<close> throws the \<open>RangeError\<close> of \<open>Buffer.alloc\<close>; before the
  library is initialised the loader's \<open>decryptSegment\<close> throws \<open>Sodium not initialized\<close>;
  and for a nonce text that is not base64 it throws the error of the decoder. None of
  them tells of the size of the key.
\<close>

theorem key_material_validation_counterexample:
  "decryptSegment (replicate 15 0) (replicate 31 7) (replicate 12 0)
     = Inl (RangeError (''The value of '' @ [DQUOTE] @ ''size'' @ [DQUOTE] @ '' is out of range.''))
   \<and> \<not> malformed_key_material
         (RangeError (''The value of '' @ [DQUOTE] @ ''size'' @ [DQUOTE] @ '' is out of range.''))
   \<and> loader_decryptSegment False (replicate 16 0) (replicate 31 7) ''AAAAAAAAAAAAAAAA''
     = Inl (Error ''Sodium not initialized'')
   \<and> \<not> malformed_key_material (Error ''Sodium not initialized'')
   \<and> loader_decryptSegment True (replicate 16 0) (replicate 31 7) ''!!!''
     = Inl (Error (''Decryption failed: '' @ message atob_failure))
   \<and> \<not> malformed_key_material (Error (''Decryption failed: '' @ message atob_failure))"
  by (simp add: decryptSegment_def loader_decryptSegment_def decode_nonce_garbage
      malformed_key_material_def atob_failure_def)

end
